theory Spec2Isabelle
  imports Main "HOL-Library.Sublist"
begin

section \<open>Python values\<close>

text \<open>
  Text is modelled as the UTF-8 encoding of the Python \<open>str\<close>: a \<open>string\<close> whose
  characters are bytes.  Every pattern, delimiter and escape the program looks at is
  ASCII, and no byte of a multi-byte UTF-8 sequence is an ASCII byte, so matching and
  replacing on the bytes agrees with matching and replacing on the code points.

  A float is kept as a decimal \<open>m * 10 ^ e\<close> standing for the double nearest to it
  (every finite double is such a decimal; a decimal beyond the range of the doubles
  stands for the infinity it rounds to), or as an infinity or a NaN.
\<close>

datatype pyfloat = FDec int int | FInf bool | FNaN

datatype pyval =
    PNone
  | PBool bool
  | PInt int
  | PFloat pyfloat
  | PComplex pyfloat pyfloat
  | PStr string
  | PBytes string
  | PList "pyval list"
  | PTuple "pyval list"
  | PSet "pyval list"
  | PDict "(pyval \<times> pyval) list"
  | PEllipsis

text \<open>
  A decimal rounds to the double zero exactly when its magnitude is at most
  \<open>2 ^ -1075\<close>, half of the smallest subnormal.
\<close>

fun float_nonzero :: "pyfloat \<Rightarrow> bool" where
  "float_nonzero (FDec m e) =
     (if 0 \<le> e then m \<noteq> 0 else \<bar>m\<bar> * 2 ^ 1075 > 10 ^ nat (- e))"
| "float_nonzero (FInf _) = True"
| "float_nonzero FNaN = True"

text \<open>Python truth value testing, as used by \<open>not data\<close> and \<open>not sql_query\<close>.\<close>

fun truthy :: "pyval \<Rightarrow> bool" where
  "truthy PNone = False"
| "truthy (PBool b) = b"
| "truthy (PInt i) = (i \<noteq> 0)"
| "truthy (PFloat f) = float_nonzero f"
| "truthy (PComplex re im) = (float_nonzero re \<or> float_nonzero im)"
| "truthy (PStr s) = (s \<noteq> [])"
| "truthy (PBytes s) = (s \<noteq> [])"
| "truthy (PList xs) = (xs \<noteq> [])"
| "truthy (PTuple xs) = (xs \<noteq> [])"
| "truthy (PSet xs) = (xs \<noteq> [])"
| "truthy (PDict kvs) = (kvs \<noteq> [])"
| "truthy PEllipsis = True"

text \<open>
  A dict is an association list in insertion order.  Storing under a key that is
  already there overwrites the value and keeps the key's position.
\<close>

fun dict_set :: "('k \<times> 'v) list \<Rightarrow> 'k \<Rightarrow> 'v \<Rightarrow> ('k \<times> 'v) list" where
  "dict_set [] k v = [(k, v)]"
| "dict_set ((k', v') # kvs) k v =
     (if k' = k then (k, v) # kvs else (k', v') # dict_set kvs k v)"

definition py_dict :: "('k \<times> 'v) list \<Rightarrow> ('k \<times> 'v) list" where
  \<comment> \<open>\<open>dict(pairs)\<close> and the dict comprehension: the pairs stored from left to right\<close>
  "py_dict kvs = foldl (\<lambda>d (k, v). dict_set d k v) [] kvs"

section \<open>Result normalisation: \<open>execute_sql_query\<close>\<close>

text \<open>
  Everything \<open>execute_sql_query\<close> does between entering its \<open>try\<close> block and the
  return of \<open>pd.read_sql_query\<close> belongs to the storage collaborator: it yields a
  data frame (column names and rows) or raises, and the \<open>except\<close> branch turns the
  exception into its message.
\<close>

datatype query_outcome = QOk "string list" "pyval list list" | QErr string

type_synonym envelope = "(string \<times> pyval) list"

definition to_dict_records :: "string list \<Rightarrow> pyval list list \<Rightarrow> pyval list" where
  \<comment> \<open>\<open>df.to_dict('records')\<close>: one dict per row, the values zipped onto the columns\<close>
  "to_dict_records cols rows =
     map (\<lambda>row. PDict (py_dict (zip (map PStr cols) row))) rows"

definition df_empty :: "string list \<Rightarrow> pyval list list \<Rightarrow> bool" where
  \<comment> \<open>\<open>df.empty\<close>: some axis has length 0\<close>
  "df_empty cols rows = (rows = [] \<or> cols = [])"

definition execute_sql_query :: "(pyval \<Rightarrow> query_outcome) \<Rightarrow> pyval \<Rightarrow> envelope" where
  "execute_sql_query storage sql_query =
     (case storage sql_query of
        QOk cols rows \<Rightarrow>
          (let data = to_dict_records cols rows;
               data = (if df_empty cols rows \<and> length cols > 0
                       then [PDict (py_dict (map (\<lambda>col. (PStr col, PNone)) cols))]
                       else data)
           in [(''success'', PBool True),
               (''error'', PNone),
               (''data'', PList data),
               (''row_count'', PInt (int (length data))),
               (''columns'', PList (map PStr cols))])
      | QErr msg \<Rightarrow>
          [(''success'', PBool False),
           (''error'', PStr msg),
           (''data'', PNone)])"

section \<open>Text operations used by the decoder\<close>

abbreviation DQ :: char where "DQ \<equiv> CHR 0x22"
abbreviation BSL :: char where "BSL \<equiv> CHR 0x5C"
abbreviation LF :: char where "LF \<equiv> CHR 0x0A"
abbreviation CR :: char where "CR \<equiv> CHR 0x0D"

text \<open>
  \<open>s.replace(old, new)\<close>: every non-overlapping occurrence of \<open>old\<close>, from the left.
  With an empty \<open>old\<close>, Python puts \<open>new\<close> before every character and at the end.
\<close>

function str_replace :: "string \<Rightarrow> string \<Rightarrow> string \<Rightarrow> string" where
  "str_replace old new [] = (if old = [] then new else [])"
| "str_replace old new (c # cs) =
     (if old = [] then new @ c # str_replace old new cs
      else if prefix old (c # cs) then new @ str_replace old new (drop (length old) (c # cs))
      else c # str_replace old new cs)"
  by pat_completeness auto
termination
  by (relation "measure (\<lambda>(old, new, s). length s)") auto

text \<open>
  The class \<open>\s\<close> of a \<open>str\<close> pattern is Unicode whitespace: the ASCII characters
  U+0009..U+000D, U+001C..U+001F and U+0020, and U+0085, U+00A0, U+1680,
  U+2000..U+200A, U+2028, U+2029, U+202F, U+205F, U+3000, here in UTF-8.
\<close>

definition ascii_space :: "char \<Rightarrow> bool" where
  "ascii_space c = (c \<in> set [CHR 0x09, CHR 0x0A, CHR 0x0B, CHR 0x0C, CHR 0x0D,
                              CHR 0x1C, CHR 0x1D, CHR 0x1E, CHR 0x1F, CHR 0x20])"

definition wide_spaces :: "string list" where
  "wide_spaces =
     [[CHR 0xC2, CHR 0x85], [CHR 0xC2, CHR 0xA0], [CHR 0xE1, CHR 0x9A, CHR 0x80],
      [CHR 0xE2, CHR 0x80, CHR 0x80], [CHR 0xE2, CHR 0x80, CHR 0x81],
      [CHR 0xE2, CHR 0x80, CHR 0x82], [CHR 0xE2, CHR 0x80, CHR 0x83],
      [CHR 0xE2, CHR 0x80, CHR 0x84], [CHR 0xE2, CHR 0x80, CHR 0x85],
      [CHR 0xE2, CHR 0x80, CHR 0x86], [CHR 0xE2, CHR 0x80, CHR 0x87],
      [CHR 0xE2, CHR 0x80, CHR 0x88], [CHR 0xE2, CHR 0x80, CHR 0x89],
      [CHR 0xE2, CHR 0x80, CHR 0x8A], [CHR 0xE2, CHR 0x80, CHR 0xA8],
      [CHR 0xE2, CHR 0x80, CHR 0xA9], [CHR 0xE2, CHR 0x80, CHR 0xAF],
      [CHR 0xE2, CHR 0x81, CHR 0x9F], [CHR 0xE3, CHR 0x80, CHR 0x80]]"

definition space_len :: "string \<Rightarrow> nat" where
  \<comment> \<open>the number of bytes of the whitespace character at the head, 0 when there is none\<close>
  "space_len s =
     (case s of
        [] \<Rightarrow> 0
      | c # _ \<Rightarrow>
          if ascii_space c then 1
          else (case filter (\<lambda>w. prefix w s) wide_spaces of [] \<Rightarrow> 0 | w # _ \<Rightarrow> length w))"

lemma space_len_Nil [simp]: "space_len [] = 0"
  by (simp add: space_len_def)

function skip_space :: "string \<Rightarrow> string" where
  \<comment> \<open>what is left after the greedy \<open>\s*\<close>\<close>
  "skip_space s = (if space_len s = 0 then s else skip_space (drop (space_len s) s))"
  by pat_completeness auto
termination
proof (relation "measure length")
  show "wf (measure length)" by simp
next
  fix s :: string
  assume "space_len s \<noteq> 0"
  then have "s \<noteq> []" by auto
  with \<open>space_len s \<noteq> 0\<close> show "(drop (space_len s) s, s) \<in> measure length" by simp
qed

declare skip_space.simps [simp del]

lemma skip_space_length: "length (skip_space s) \<le> length s"
proof (induction s rule: skip_space.induct)
  case (1 s)
  show ?case
  proof (cases "space_len s = 0")
    case True
    then show ?thesis by (simp add: skip_space.simps)
  next
    case False
    with 1 have "length (skip_space (drop (space_len s) s)) \<le> length (drop (space_len s) s)"
      by simp
    with False show ?thesis by (subst skip_space.simps) simp
  qed
qed

section \<open>The two patterns of \<open>fix_json_format\<close>\<close>

text \<open>
  The pattern of methods 2 and 4 is \<^verbatim>\<open>"sql":\s*"([^"]*(?:\\.[^"]*)*)"\<close> (with DOTALL).
  After the opening quote the greedy \<^verbatim>\<open>[^"]*\<close> takes every character up to the next
  quote, backslashes included; there the group \<^verbatim>\<open>(?:\\.[^"]*)*\<close> cannot start (the next
  character is a quote, not a backslash) and the closing quote matches.  So the first
  attempt of the backtracking matcher succeeds whenever a later quote exists, group 1 is
  the text up to the first quote after the opening one, and when no later quote exists
  no shorter choice can match either.  \<open>\s*\<close> is followed by a quote, which is not
  whitespace, so it must take all the whitespace.

  \<open>match_sql_at s\<close> is the match starting at the head of \<open>s\<close>:
  group 0, group 1 and the text after the match.
\<close>

definition match_sql_at :: "string \<Rightarrow> (string \<times> string \<times> string) option" where
  \<open>match_sql_at s =
     (if prefix ''"sql":'' s then
        (let t = drop 6 s; u = skip_space t in
         case u of
           [] \<Rightarrow> None
         | q # v \<Rightarrow>
             if q = DQ \<and> DQ \<in> set v then
               (let sp = take (length t - length u) t;
                    g1 = takeWhile (\<lambda>c. c \<noteq> DQ) v
                in Some (''"sql":'' @ sp @ [DQ] @ g1 @ [DQ], g1, tl (dropWhile (\<lambda>c. c \<noteq> DQ) v)))
             else None)
      else None)\<close>

text \<open>
  The pattern of method 3 is \<^verbatim>\<open>"([^"]+)":\s*"([^"]*(?:\n[^"]*)*)"\<close> (with DOTALL).  The key
  is the non-empty text up to the next quote, which a colon must follow; the value is,
  as above, the text up to the first quote after the opening one.
  \<open>match_kv_at s\<close> gives group 1 (the key), group 2 (the value) and the text after the match.
\<close>

definition match_kv_at :: "string \<Rightarrow> (string \<times> string \<times> string) option" where
  \<open>match_kv_at s =
     (case s of
        [] \<Rightarrow> None
      | q0 # r \<Rightarrow>
          (let key = takeWhile (\<lambda>c. c \<noteq> DQ) r in
           if q0 = DQ \<and> key \<noteq> [] \<and> prefix ''":'' (dropWhile (\<lambda>c. c \<noteq> DQ) r) then
             (case skip_space (drop 2 (dropWhile (\<lambda>c. c \<noteq> DQ) r)) of
                [] \<Rightarrow> None
              | q # v \<Rightarrow>
                  if q = DQ \<and> DQ \<in> set v
                  then Some (key, takeWhile (\<lambda>c. c \<noteq> DQ) v, tl (dropWhile (\<lambda>c. c \<noteq> DQ) v))
                  else None)
           else None))\<close>

text \<open>\<open>re.search\<close>: the match at the leftmost position that has one, with the text before it.\<close>

fun re_search :: "(string \<Rightarrow> 'm option) \<Rightarrow> string \<Rightarrow> (string \<times> 'm) option" where
  "re_search m [] = map_option (Pair []) (m [])"
| "re_search m (c # cs) =
     (case m (c # cs) of
        Some r \<Rightarrow> Some ([], r)
      | None \<Rightarrow> map_option (\<lambda>(pre, r). (c # pre, r)) (re_search m cs))"

definition fix_string_value :: "string \<Rightarrow> string \<Rightarrow> string" where
  \<open>fix_string_value key val =
     ''"'' @ key @ ''": "''
       @ str_replace [CR] [BSL, CHR ''r''] (str_replace [LF] [BSL, CHR ''n''] val) @ ''"''\<close>

lemma match_kv_at_shorter:
  assumes "match_kv_at s = Some (key, val, rest)"
  shows "length rest < length s"
proof -
  from assms obtain q0 r where s: "s = q0 # r"
    by (cases s) (auto simp: match_kv_at_def)
  let ?d = "dropWhile (\<lambda>c. c \<noteq> DQ) r"
  from assms s obtain q v where u: "skip_space (drop 2 ?d) = q # v"
    and rest: "rest = tl (dropWhile (\<lambda>c. c \<noteq> DQ) v)"
    by (auto simp: match_kv_at_def Let_def split: if_splits list.splits)
  have "length (dropWhile (\<lambda>c. c \<noteq> DQ) v) \<le> length v"
    by (rule length_dropWhile_le)
  then have "length rest \<le> length v"
    unfolding rest by simp
  also have "length v < length (skip_space (drop 2 ?d))" by (simp add: u)
  also have "\<dots> \<le> length (drop 2 ?d)" by (rule skip_space_length)
  also have "\<dots> \<le> length r"
    using length_dropWhile_le [of "\<lambda>c. c \<noteq> DQ" r] by simp
  finally show ?thesis by (simp add: s)
qed

text \<open>
  \<open>re.sub(pattern, fix_string_value, raw_data)\<close>: the matches are taken from the left,
  each search resuming where the previous match ended.
\<close>

function re_sub_kv :: "string \<Rightarrow> string" where
  "re_sub_kv [] = []"
| "re_sub_kv (c # cs) =
     (case match_kv_at (c # cs) of
        Some (key, val, rest) \<Rightarrow> fix_string_value key val @ re_sub_kv rest
      | None \<Rightarrow> c # re_sub_kv cs)"
  by pat_completeness auto
termination
  by (relation "measure length") (auto dest: match_kv_at_shorter)

section \<open>The request decoder: \<open>fix_json_format\<close>\<close>

text \<open>
  \<open>json.loads\<close> and \<open>ast.literal_eval\<close> are library functions; the decoder takes them as
  the parameters \<open>loads\<close> and \<open>literal_eval\<close>, with \<open>None\<close> for a call that raises
  (every \<open>except:\<close> of the decoder is bare, so the kind of exception does not matter).
  Each of the five \<open>try\<close> blocks is one function; \<open>None\<close> means that the block ended
  without returning, by an exception or, in methods 2 and 4, because the pattern was
  not found.
\<close>

definition err_unparseable :: string where
  "err_unparseable =
     [CHR 0xE6, CHR 0x97, CHR 0xA0, CHR 0xE6, CHR 0xB3, CHR 0x95, CHR 0xE8, CHR 0xA7, CHR 0xA3,
      CHR 0xE6, CHR 0x9E, CHR 0x90] @ ''JSON'' @ [CHR 0xE6, CHR 0x95, CHR 0xB0, CHR 0xE6, CHR 0x8D, CHR 0xAE]"

definition method1 :: "(string \<Rightarrow> pyval option) \<Rightarrow> string \<Rightarrow> pyval option" where
  "method1 loads raw_data = loads raw_data"

definition method2_fixed_data :: "string \<Rightarrow> string option" where
  \<comment> \<open>the text \<open>fixed_data\<close> that method 2 parses, when the pattern is found\<close>
  \<open>method2_fixed_data raw_data =
     (case re_search match_sql_at raw_data of
        None \<Rightarrow> None
      | Some (pre, group0, group1, post) \<Rightarrow>
          (let sql_content = str_replace [CR] [BSL, CHR ''r''] (str_replace [LF] [BSL, CHR ''n''] group1)
           in Some (str_replace group0 (''"sql": "'' @ sql_content @ ''"'') raw_data)))\<close>

definition method2 :: "(string \<Rightarrow> pyval option) \<Rightarrow> string \<Rightarrow> pyval option" where
  "method2 loads raw_data =
     (case method2_fixed_data raw_data of None \<Rightarrow> None | Some fixed_data \<Rightarrow> loads fixed_data)"

definition method3 :: "(string \<Rightarrow> pyval option) \<Rightarrow> string \<Rightarrow> pyval option" where
  "method3 loads raw_data = loads (re_sub_kv raw_data)"

definition method4 :: "string \<Rightarrow> pyval option" where
  "method4 raw_data =
     (case re_search match_sql_at raw_data of
        None \<Rightarrow> None
      | Some (pre, group0, group1, post) \<Rightarrow>
          Some (PDict [(PStr ''sql'',
                        PStr (str_replace [BSL, CHR ''r''] [CR]
                               (str_replace [BSL, CHR ''n''] [LF] group1)))]))"

definition method5 :: "(string \<Rightarrow> pyval option) \<Rightarrow> string \<Rightarrow> pyval option" where
  "method5 literal_eval raw_data = literal_eval raw_data"

definition fix_json_format ::
  "(string \<Rightarrow> pyval option) \<Rightarrow> (string \<Rightarrow> pyval option) \<Rightarrow> string \<Rightarrow> string + pyval" where
  "fix_json_format loads literal_eval raw_data =
     (case method1 loads raw_data of Some v \<Rightarrow> Inr v | None \<Rightarrow>
      case method2 loads raw_data of Some v \<Rightarrow> Inr v | None \<Rightarrow>
      case method3 loads raw_data of Some v \<Rightarrow> Inr v | None \<Rightarrow>
      case method4 raw_data of Some v \<Rightarrow> Inr v | None \<Rightarrow>
      case method5 literal_eval raw_data of Some v \<Rightarrow> Inr v | None \<Rightarrow>
      Inl err_unparseable)"

section \<open>The endpoints\<close>

definition msg_json_format :: string where
  "msg_json_format =
     ''JSON'' @ [CHR 0xE6, CHR 0xA0, CHR 0xBC, CHR 0xE5, CHR 0xBC, CHR 0x8F, CHR 0xE9, CHR 0x94,
                 CHR 0x99, CHR 0xE8, CHR 0xAF, CHR 0xAF] @ '': ''"

definition msg_empty_body :: string where
  "msg_empty_body =
     [CHR 0xE8, CHR 0xAF, CHR 0xB7, CHR 0xE6, CHR 0xB1, CHR 0x82, CHR 0xE4, CHR 0xBD, CHR 0x93,
      CHR 0xE4, CHR 0xB8, CHR 0x8D, CHR 0xE8, CHR 0x83, CHR 0xBD, CHR 0xE4, CHR 0xB8, CHR 0xBA,
      CHR 0xE7, CHR 0xA9, CHR 0xBA]"

definition msg_missing_sql :: string where
  "msg_missing_sql =
     [CHR 0xE7, CHR 0xBC, CHR 0xBA, CHR 0xE5, CHR 0xB0, CHR 0x91] @ ''sql''
       @ [CHR 0xE5, CHR 0x8F, CHR 0x82, CHR 0xE6, CHR 0x95, CHR 0xB0]"

definition msg_server_error :: string where
  "msg_server_error =
     [CHR 0xE6, CHR 0x9C, CHR 0x8D, CHR 0xE5, CHR 0x8A, CHR 0xA1, CHR 0xE5, CHR 0x99, CHR 0xA8,
      CHR 0xE9, CHR 0x94, CHR 0x99, CHR 0xE8, CHR 0xAF, CHR 0xAF] @ '': ''"



text \<open>
  What a handler did: the JSON body and the status it returned, and the queries it
  handed to \<open>execute_sql_query\<close>, in order.  The last field is the trace of the calls
  to the storage collaborator; it is not part of the HTTP response.
\<close>

record handled =
  body :: envelope
  status :: nat
  queries :: "pyval list"

fun type_name :: "pyval \<Rightarrow> string" where
  "type_name PNone = ''NoneType''"
| "type_name (PBool _) = ''bool''"
| "type_name (PInt _) = ''int''"
| "type_name (PFloat _) = ''float''"
| "type_name (PComplex _ _) = ''complex''"
| "type_name (PStr _) = ''str''"
| "type_name (PBytes _) = ''bytes''"
| "type_name (PList _) = ''list''"
| "type_name (PTuple _) = ''tuple''"
| "type_name (PSet _) = ''set''"
| "type_name (PDict _) = ''dict''"
| "type_name PEllipsis = ''ellipsis''"

fun py_get :: "pyval \<Rightarrow> string \<Rightarrow> string + pyval" where
  \<comment> \<open>\<open>data.get(key)\<close>: only a dict has the method; the others raise AttributeError\<close>
  "py_get (PDict kvs) key =
     Inr (case map_of kvs (PStr key) of None \<Rightarrow> PNone | Some v \<Rightarrow> v)"
| "py_get v key =
     Inl ([CHR 0x27] @ type_name v @ [CHR 0x27] @ '' object has no attribute ''
            @ [CHR 0x27] @ ''get'' @ [CHR 0x27])"

definition getitem :: "envelope \<Rightarrow> string \<Rightarrow> string + pyval" where
  \<comment> \<open>\<open>result[key]\<close>: KeyError, whose message is the quoted key, when the key is missing\<close>
  "getitem d key =
     (case map_of d key of
        None \<Rightarrow> Inl ([CHR 0x27] @ key @ [CHR 0x27])
      | Some v \<Rightarrow> Inr v)"

text \<open>
  \<open>jsonify\<close> raises when a value cannot be serialised (a set, bytes, a complex number);
  \<open>jsonify_error\<close> gives the message of that exception, \<open>None\<close> when the envelope can be
  serialised.  The envelopes built from literals and messages alone always can, and
  are returned directly.
\<close>

definition jsonify :: "(envelope \<Rightarrow> string option) \<Rightarrow> envelope \<Rightarrow> string + envelope" where
  "jsonify jsonify_error env =
     (case jsonify_error env of None \<Rightarrow> Inr env | Some msg \<Rightarrow> Inl msg)"

definition client_error :: "string \<Rightarrow> handled" where
  "client_error msg =
     \<lparr>body = [(''success'', PBool False), (''error'', PStr msg), (''data'', PNone)],
      status = 400, queries = []\<rparr>"

definition server_error :: "string \<Rightarrow> string \<Rightarrow> pyval list \<Rightarrow> handled" where
  \<comment> \<open>the outermost \<open>except\<close> of \<open>query_sql\<close>\<close>
  "server_error e now qs =
     \<lparr>body = [(''success'', PBool False),
              (''error'', PStr (msg_server_error @ e)),
              (''data'', PNone),
              (''timestamp'', PStr now)],
      status = 500, queries = qs\<rparr>"

definition success_response ::
  "(envelope \<Rightarrow> string option) \<Rightarrow> string \<Rightarrow> envelope \<Rightarrow> pyval \<Rightarrow> handled" where
  "success_response jsonify_error now result sql_query =
     (case getitem result ''data'' of Inl e \<Rightarrow> server_error e now [sql_query] | Inr data \<Rightarrow>
      case getitem result ''row_count'' of Inl e \<Rightarrow> server_error e now [sql_query] | Inr row_count \<Rightarrow>
      case getitem result ''columns'' of Inl e \<Rightarrow> server_error e now [sql_query] | Inr columns \<Rightarrow>
      case jsonify jsonify_error
             [(''success'', PBool True),
              (''error'', PNone),
              (''data'', data),
              (''row_count'', row_count),
              (''columns'', columns),
              (''sql'', sql_query),
              (''timestamp'', PStr now)] of
        Inl e \<Rightarrow> server_error e now [sql_query]
      | Inr b \<Rightarrow> \<lparr>body = b, status = 200, queries = [sql_query]\<rparr>)"

definition failure_response ::
  "(envelope \<Rightarrow> string option) \<Rightarrow> string \<Rightarrow> envelope \<Rightarrow> pyval \<Rightarrow> handled" where
  "failure_response jsonify_error now result sql_query =
     (case getitem result ''error'' of Inl e \<Rightarrow> server_error e now [sql_query] | Inr err \<Rightarrow>
      case jsonify jsonify_error
             [(''success'', PBool False),
              (''error'', err),
              (''data'', PNone),
              (''sql'', sql_query),
              (''timestamp'', PStr now)] of
        Inl e \<Rightarrow> server_error e now [sql_query]
      | Inr b \<Rightarrow> \<lparr>body = b, status = 400, queries = [sql_query]\<rparr>)"

text \<open>
  The handler of \<open>POST /query\<close>.  \<open>raw_data\<close> is the request body as text, \<open>now\<close> the
  timestamp \<open>datetime.now().isoformat()\<close>.  Logging and \<open>print\<close> are left out;
  \<open>print(sql_query)\<close> can raise only on text that the standard output cannot encode,
  and then the outermost \<open>except\<close> answers with the server-error envelope and no
  query is run.
\<close>

definition query_sql ::
  "(string \<Rightarrow> pyval option) \<Rightarrow> (string \<Rightarrow> pyval option) \<Rightarrow> (pyval \<Rightarrow> query_outcome)
     \<Rightarrow> (envelope \<Rightarrow> string option) \<Rightarrow> string \<Rightarrow> string \<Rightarrow> handled" where
  "query_sql loads literal_eval storage jsonify_error now raw_data =
     (case fix_json_format loads literal_eval raw_data of
        Inl e \<Rightarrow> client_error (msg_json_format @ e)
      | Inr data \<Rightarrow>
          if \<not> truthy data then client_error msg_empty_body
          else
            (case py_get data ''sql'' of
               Inl e \<Rightarrow> server_error e now []
             | Inr sql_query \<Rightarrow>
                 if \<not> truthy sql_query then client_error msg_missing_sql
                 else
                   (let result = execute_sql_query storage sql_query in
                    case getitem result ''success'' of
                      Inl e \<Rightarrow> server_error e now [sql_query]
                    | Inr ok \<Rightarrow>
                        if truthy ok
                        then success_response jsonify_error now result sql_query
                        else failure_response jsonify_error now result sql_query)))"

text \<open>
  A decoding result carries a usable query when it is a value, the value is truthy,
  it has a \<open>get\<close> method (it is a mapping), and its \<open>sql\<close> entry is truthy.
\<close>

definition usable_sql :: "string + pyval \<Rightarrow> bool" where
  "usable_sql r =
     (case r of
        Inl e \<Rightarrow> False
      | Inr data \<Rightarrow>
          truthy data \<and> (case py_get data ''sql'' of Inl e \<Rightarrow> False | Inr q \<Rightarrow> truthy q))"






definition is_dict :: "pyval \<Rightarrow> bool" where
  "is_dict v = (case v of PDict _ \<Rightarrow> True | _ \<Rightarrow> False)"


section \<open>A model of \<open>json.loads\<close>\<close>

text \<open>
  The closed examples below, and the round trip of a query through method 2, need the
  library's answer on concrete texts.  \<open>json_loads\<close> follows the decoder of the
  standard library (\<open>json.decoder\<close> with the C scanner, default arguments, strict
  strings): whitespace is space, tab, newline and carriage return; a string may not
  contain a raw control character below U+0020; the escapes are
  \<^verbatim>\<open>\" \\ \/ \b \f \n \r \t \uXXXX\<close>, a high surrogate followed by an escaped low
  surrogate being joined; \<open>NaN\<close>, \<open>Infinity\<close> and \<open>-Infinity\<close> are accepted; a number
  with a fraction or an exponent is a float; an object keeps its keys in order of
  first appearance and the last value of a repeated key; nothing but whitespace may
  follow the value.  Not modelled: the interpreter's recursion limit and its limit on
  the number of digits of an integer; a lone surrogate is written in the three-byte
  form.

  The tests \<open>length r' < length s\<close> in \<open>parse_array\<close> and \<open>parse_object\<close> always
  hold (what is left after a value is shorter than the text it was read from); they
  are written out so that the recursion is visibly well-founded.
\<close>

definition json_ws :: "char \<Rightarrow> bool" where
  "json_ws c = (c = CHR 0x20 \<or> c = CHR 0x09 \<or> c = LF \<or> c = CR)"

definition is_digit :: "char \<Rightarrow> bool" where
  "is_digit c = (48 \<le> (of_char c :: nat) \<and> (of_char c :: nat) \<le> 57)"

definition digit_val :: "char \<Rightarrow> nat" where
  "digit_val c = of_char c - 48"

definition digits_val :: "string \<Rightarrow> nat" where
  "digits_val ds = foldl (\<lambda>n c. 10 * n + digit_val c) 0 ds"

definition hex_val :: "char \<Rightarrow> nat option" where
  "hex_val c =
     (let n = (of_char c :: nat) in
      if 48 \<le> n \<and> n \<le> 57 then Some (n - 48)
      else if 97 \<le> n \<and> n \<le> 102 then Some (n - 87)
      else if 65 \<le> n \<and> n \<le> 70 then Some (n - 55)
      else None)"

definition hex4 :: "string \<Rightarrow> nat option" where
  "hex4 s =
     (case map hex_val s of
        [Some a, Some b, Some c, Some d] \<Rightarrow> Some (((a * 16 + b) * 16 + c) * 16 + d)
      | _ \<Rightarrow> None)"

definition utf8_encode :: "nat \<Rightarrow> string" where
  "utf8_encode cp =
     (if cp < 0x80 then [char_of cp]
      else if cp < 0x800 then [char_of (0xC0 + cp div 64), char_of (0x80 + cp mod 64)]
      else if cp < 0x10000 then
        [char_of (0xE0 + cp div 4096), char_of (0x80 + cp div 64 mod 64), char_of (0x80 + cp mod 64)]
      else
        [char_of (0xF0 + cp div 262144), char_of (0x80 + cp div 4096 mod 64),
         char_of (0x80 + cp div 64 mod 64), char_of (0x80 + cp mod 64)])"

definition simple_escape :: "char \<Rightarrow> char option" where
  "simple_escape e =
     (if e = DQ then Some DQ
      else if e = BSL then Some BSL
      else if e = CHR ''/'' then Some (CHR ''/'')
      else if e = CHR ''b'' then Some (CHR 0x08)
      else if e = CHR ''f'' then Some (CHR 0x0C)
      else if e = CHR ''n'' then Some LF
      else if e = CHR ''r'' then Some CR
      else if e = CHR ''t'' then Some (CHR 0x09)
      else None)"

function scanstring :: "string \<Rightarrow> string \<Rightarrow> (string \<times> string) option" where
  "scanstring acc [] = None"
| "scanstring acc (c # cs) =
     (if c = DQ then Some (acc, cs)
      else if c = BSL then
        (case cs of
           [] \<Rightarrow> None
         | e # r \<Rightarrow>
             if e = CHR ''u'' then
               (case hex4 (take 4 r) of
                  None \<Rightarrow> None
                | Some u \<Rightarrow>
                    if 0xD800 \<le> u \<and> u \<le> 0xDBFF \<and> 6 < length (drop 4 r)
                       \<and> take 2 (drop 4 r) = [BSL, CHR ''u'']
                    then
                      (case hex4 (take 4 (drop 6 r)) of
                         None \<Rightarrow> None
                       | Some u2 \<Rightarrow>
                           if 0xDC00 \<le> u2 \<and> u2 \<le> 0xDFFF
                           then scanstring
                                  (acc @ utf8_encode (0x10000 + (u - 0xD800) * 1024 + (u2 - 0xDC00)))
                                  (drop 10 r)
                           else scanstring (acc @ utf8_encode u) (drop 4 r))
                    else scanstring (acc @ utf8_encode u) (drop 4 r))
             else
               (case simple_escape e of
                  None \<Rightarrow> None
                | Some ch \<Rightarrow> scanstring (acc @ [ch]) r))
      else if (of_char c :: nat) < 0x20 then None
      else scanstring (acc @ [c]) cs)"
  by pat_completeness auto
termination
  by (relation "measure (\<lambda>(acc, s). length s)") auto


definition match_number :: "string \<Rightarrow> (pyval \<times> string) option" where
  "match_number s =
     (let neg = (take 1 s = ''-'');
          s1 = (if neg then drop 1 s else s)
      in case s1 of
           [] \<Rightarrow> None
         | d # _ \<Rightarrow>
             if \<not> is_digit d then None
             else
               (let ip = (if d = CHR ''0'' then [d] else takeWhile is_digit s1);
                    s2 = drop (length ip) s1;
                    has_frac = (length s2 > 1 \<and> hd s2 = CHR ''.'' \<and> is_digit (s2 ! 1));
                    fp = (if has_frac then takeWhile is_digit (drop 1 s2) else []);
                    s3 = (if has_frac then drop (1 + length fp) s2 else s2);
                    e0 = (if length s3 > 1 \<and> (hd s3 = CHR ''e'' \<or> hd s3 = CHR ''E'')
                          then drop 1 s3 else []);
                    eneg = (take 1 e0 = ''-'');
                    e1 = (if take 1 e0 = ''-'' \<or> take 1 e0 = ''+'' then drop 1 e0 else e0);
                    ep = takeWhile is_digit e1;
                    has_exp = (ep \<noteq> []);
                    s4 = (if has_exp then drop (length ep) e1 else s3);
                    sgn = (if neg then - 1 else 1 :: int)
                in if has_frac \<or> has_exp
                   then Some (PFloat (FDec (sgn * int (digits_val (ip @ fp)))
                                 ((if eneg then - int (digits_val ep) else int (digits_val ep))
                                    - int (length fp))),
                              s4)
                   else Some (PInt (sgn * int (digits_val ip)), s4)))"

lemma dropWhile_Cons_shorter: "dropWhile P xs = y # ys \<Longrightarrow> length ys < length xs"
  using length_dropWhile_le [of P xs] by simp

lemma dropWhile_less: "length xs < n \<Longrightarrow> length (dropWhile P xs) < n"
  using length_dropWhile_le [of P xs] by simp

function (sequential) scan_once :: "string \<Rightarrow> (pyval \<times> string) option"
  and parse_array :: "pyval list \<Rightarrow> string \<Rightarrow> (pyval \<times> string) option"
  and parse_object :: "(pyval \<times> pyval) list \<Rightarrow> string \<Rightarrow> (pyval \<times> string) option"
where
  "scan_once [] = None"
| "scan_once (c # cs) =
     (if c = DQ then map_option (\<lambda>(str, r). (PStr str, r)) (scanstring [] cs)
      else if c = CHR ''{'' then
        (case dropWhile json_ws cs of
           [] \<Rightarrow> None
         | d # r \<Rightarrow> if d = CHR ''}'' then Some (PDict [], r) else parse_object [] (d # r))
      else if c = CHR ''['' then
        (case dropWhile json_ws cs of
           [] \<Rightarrow> None
         | d # r \<Rightarrow> if d = CHR '']'' then Some (PList [], r) else parse_array [] (d # r))
      else if prefix ''null'' (c # cs) then Some (PNone, drop 4 (c # cs))
      else if prefix ''true'' (c # cs) then Some (PBool True, drop 4 (c # cs))
      else if prefix ''false'' (c # cs) then Some (PBool False, drop 5 (c # cs))
      else if prefix ''NaN'' (c # cs) then Some (PFloat FNaN, drop 3 (c # cs))
      else if prefix ''Infinity'' (c # cs) then Some (PFloat (FInf False), drop 8 (c # cs))
      else if prefix ''-Infinity'' (c # cs) then Some (PFloat (FInf True), drop 9 (c # cs))
      else match_number (c # cs))"
| "parse_array acc s =
     (case scan_once s of
        None \<Rightarrow> None
      | Some (v, r) \<Rightarrow>
          (case dropWhile json_ws r of
             [] \<Rightarrow> None
           | d # r' \<Rightarrow>
               if d = CHR '']'' then Some (PList (acc @ [v]), r')
               else if d = CHR '','' \<and> length r' < length s
               then parse_array (acc @ [v]) (dropWhile json_ws r')
               else None))"
| "parse_object acc s =
     (case s of
        [] \<Rightarrow> None
      | q # s1 \<Rightarrow>
          if q \<noteq> DQ then None
          else
            (case scanstring [] s1 of
               None \<Rightarrow> None
             | Some (key, r) \<Rightarrow>
                 (case dropWhile json_ws r of
                    [] \<Rightarrow> None
                  | colon # r1 \<Rightarrow>
                      if colon \<noteq> CHR '':'' \<or> \<not> length r1 < length s then None
                      else
                        (case scan_once (dropWhile json_ws r1) of
                           None \<Rightarrow> None
                         | Some (v, r2) \<Rightarrow>
                             (case dropWhile json_ws r2 of
                                [] \<Rightarrow> None
                              | d # r3 \<Rightarrow>
                                  if d = CHR ''}'' then Some (PDict (dict_set acc (PStr key) v), r3)
                                  else if d = CHR '','' \<and> length r3 < length s
                                  then parse_object (dict_set acc (PStr key) v) (dropWhile json_ws r3)
                                  else None)))))"
  by pat_completeness auto
termination
proof (relation "measure (\<lambda>x. case x of Inl s \<Rightarrow> 2 * length s
                                 | Inr (Inl (acc, s)) \<Rightarrow> 2 * length s + 1
                                 | Inr (Inr (acc, s)) \<Rightarrow> 2 * length s + 1)",
       goal_cases)
  case 1
  show ?case by simp
next
  case (2 c cs d r)
  then show ?case by (auto dest: dropWhile_Cons_shorter)
next
  case (3 c cs d r)
  then show ?case by (auto dest: dropWhile_Cons_shorter)
next
  case (4 acc s)
  show ?case by simp
next
  case (5 acc s x v r d r')
  then have "length (dropWhile json_ws r') < length s" by (auto intro: dropWhile_less)
  then show ?case by simp
next
  case (6 acc s q s1 x key r colon r1)
  then have "length (dropWhile json_ws r1) < length s" by (auto intro: dropWhile_less)
  then show ?case by simp
next
  case (7 acc s q s1 x key r colon r1 y v r2 d r3)
  then have "length (dropWhile json_ws r3) < length s" by (auto intro: dropWhile_less)
  then show ?case by simp
qed

definition json_loads :: "string \<Rightarrow> pyval option" where
  "json_loads s =
     (case scan_once (dropWhile json_ws s) of
        None \<Rightarrow> None
      | Some (v, r) \<Rightarrow> if dropWhile json_ws r = [] then Some v else None)"

section \<open>Notions used in the statements about the decoder\<close>

text \<open>
  The effect of \<open>.replace('\n', '\\n').replace('\r', '\\r')\<close>, character by character
  (\<open>escape_newlines_eq\<close> below shows that the two replacements compute it).
\<close>

definition escape_newlines :: "string \<Rightarrow> string" where
  "escape_newlines s =
     concat (map (\<lambda>c. if c = LF then [BSL, CHR ''n''] else if c = CR then [BSL, CHR ''r''] else [c]) s)"



text \<open>
  The repair as the specification words it, for comparison with \<open>method2_fixed_data\<close>:
  the captured text of the first match has its newlines and carriage returns escaped,
  at the same place, and every character outside the captured text stays as it is.
\<close>

definition spliced_in_place :: "string \<Rightarrow> string option" where
  "spliced_in_place raw_data =
     (case re_search match_sql_at raw_data of
        None \<Rightarrow> None
      | Some (pre, group0, group1, post) \<Rightarrow>
          Some (pre @ take (length group0 - length group1 - 1) group0
                  @ escape_newlines group1 @ [DQ] @ post))"

section \<open>Properties of the normaliser\<close>

lemma dict_set_keys: "fst ` set (dict_set d k v) = insert k (fst ` set d)"
proof (induction d)
  case Nil
  show ?case by simp
next
  case (Cons p d)
  obtain k' v' where p: "p = (k', v')" by (cases p)
  show ?case using Cons by (cases "k' = k") (simp_all add: p insert_commute)
qed

lemma dict_set_lookup:
  "map_of (dict_set d k v) k' = (if k' = k then Some v else map_of d k')"
  by (induction d) auto

lemma foldl_none_keys:
  "fst ` set (foldl (\<lambda>d (k, v). dict_set d k v) d (map (\<lambda>c. (f c, n)) cs))
     = fst ` set d \<union> f ` set cs"
  by (induction cs arbitrary: d) (auto simp: dict_set_keys)

lemma foldl_none_lookup:
  "map_of (foldl (\<lambda>d (k, v). dict_set d k v) d (map (\<lambda>c. (f c, n)) cs)) k
     = (if k \<in> f ` set cs then Some n else map_of d k)"
  by (induction cs arbitrary: d) (auto simp: dict_set_lookup)

lemma empty_row_keys:
  "fst ` set (py_dict (map (\<lambda>col. (PStr col, PNone)) cols)) = PStr ` set cols"
  by (simp add: py_dict_def foldl_none_keys)

lemma empty_row_lookup:
  "c \<in> set cols \<Longrightarrow> map_of (py_dict (map (\<lambda>col. (PStr col, PNone)) cols)) (PStr c) = Some PNone"
  by (simp add: py_dict_def foldl_none_lookup)

text \<open>
  C1.  When the store returns a non-empty column list and no rows, the envelope's
  \<open>data\<close> is a list of exactly one row; the keys of that row are the column names and
  each of them maps to \<open>None\<close>; \<open>row_count\<close> is 1 and \<open>columns\<close> is the column list.
\<close>

theorem empty_result_synthesis:
  assumes "storage q = QOk cols []" and "cols \<noteq> []"
  shows "\<exists>row. map_of (execute_sql_query storage q) ''data'' = Some (PList [PDict row])
           \<and> fst ` set row = PStr ` set cols
           \<and> (\<forall>c \<in> set cols. map_of row (PStr c) = Some PNone)
           \<and> map_of (execute_sql_query storage q) ''row_count'' = Some (PInt 1)
           \<and> map_of (execute_sql_query storage q) ''columns'' = Some (PList (map PStr cols))
           \<and> map_of (execute_sql_query storage q) ''success'' = Some (PBool True)"
  using assms
  by (simp add: execute_sql_query_def df_empty_def to_dict_records_def
        empty_row_keys empty_row_lookup)

theorem empty_result_synthesis_witness:
  "(\<lambda>q. QOk [''a'', ''b''] []) (PStr ''select a, b from t where 1 = 0'') = QOk [''a'', ''b''] []
   \<and> [''a'', ''b''] \<noteq> ([] :: string list)
   \<and> execute_sql_query (\<lambda>q. QOk [''a'', ''b''] []) (PStr ''select a, b from t where 1 = 0'')
       = [(''success'', PBool True),
          (''error'', PNone),
          (''data'', PList [PDict [(PStr ''a'', PNone), (PStr ''b'', PNone)]]),
          (''row_count'', PInt 1),
          (''columns'', PList [PStr ''a'', PStr ''b''])]"
  using empty_result_synthesis
    [of "\<lambda>q. QOk [''a'', ''b''] []" "PStr ''select a, b from t where 1 = 0''" "[''a'', ''b'']"]
  by (simp add: execute_sql_query_def df_empty_def to_dict_records_def py_dict_def)

text \<open>
  C4.  When the store fails with a message, the envelope is exactly
  \<open>{success: False, error: message, data: None}\<close>: it has no \<open>row_count\<close> and no
  \<open>columns\<close> key.
\<close>

theorem error_envelope_shape:
  assumes "storage q = QErr msg"
  shows "execute_sql_query storage q
           = [(''success'', PBool False), (''error'', PStr msg), (''data'', PNone)]
         \<and> map_of (execute_sql_query storage q) ''row_count'' = None
         \<and> map_of (execute_sql_query storage q) ''columns'' = None"
  using assms by (simp add: execute_sql_query_def)

theorem error_envelope_shape_witness:
  "(\<lambda>q. QErr ''syntax error near SELEC'') (PStr ''SELEC 1'') = QErr ''syntax error near SELEC''
   \<and> execute_sql_query (\<lambda>q. QErr ''syntax error near SELEC'') (PStr ''SELEC 1'')
       = [(''success'', PBool False), (''error'', PStr ''syntax error near SELEC''), (''data'', PNone)]"
  using error_envelope_shape
    [of "\<lambda>q. QErr ''syntax error near SELEC''" "PStr ''SELEC 1''" "''syntax error near SELEC''"]
  by simp

section \<open>Properties of the decoder cascade\<close>

lemma method4_shape:
  "method4 raw_data = Some v \<Longrightarrow> \<exists>s. v = PDict [(PStr ''sql'', PStr s)]"
  by (auto simp: method4_def split: option.splits)

lemma method4_None_iff: "method4 raw_data = None \<longleftrightarrow> re_search match_sql_at raw_data = None"
  by (auto simp: method4_def split: option.splits)

text \<open>
  C3.  When each of the five methods ends without a value, \<open>fix_json_format\<close> raises
  its exception: the result is the error message alone and no decoded value.
\<close>

theorem decode_exhaustion:
  assumes "method1 loads raw_data = None"
    and "method2 loads raw_data = None"
    and "method3 loads raw_data = None"
    and "method4 raw_data = None"
    and "method5 literal_eval raw_data = None"
  shows "fix_json_format loads literal_eval raw_data = Inl err_unparseable"
  using assms by (simp add: fix_json_format_def)

theorem decode_exhaustion_witness:
  "method1 json_loads ''not json'' = None
   \<and> method2 json_loads ''not json'' = None
   \<and> method3 json_loads ''not json'' = None
   \<and> method4 ''not json'' = None
   \<and> method5 (\<lambda>s. None) ''not json'' = None
   \<and> fix_json_format json_loads (\<lambda>s. None) ''not json'' = Inl err_unparseable"
proof -
  have h1: "method1 json_loads ''not json'' = None" by code_simp
  have h2: "method2 json_loads ''not json'' = None" by code_simp
  have h3: "method3 json_loads ''not json'' = None" by code_simp
  have h4: "method4 ''not json'' = None" by code_simp
  have h5: "method5 (\<lambda>s. None) ''not json'' = None" by (simp add: method5_def)
  show ?thesis
    using h1 h2 h3 h4 h5 decode_exhaustion [OF h1 h2 h3 h4 h5] by simp
qed

section \<open>Properties of the endpoints\<close>












text \<open>
  C9.  When the decoder raises (DecodeError), or the decoded value carries no usable
  query (it is falsy, or is not a mapping, or its \<open>sql\<close> entry is missing or falsy),
  the handler answers with a failure envelope, no query is handed to
  \<open>execute_sql_query\<close>, and the response is the same whatever the store would have
  done.  The status is 400, except for a truthy value that is not a mapping, where it
  is 500.
\<close>

theorem fail_fast_without_storage:
  assumes "\<not> usable_sql (fix_json_format loads literal_eval raw_data)"
  shows "queries (query_sql loads literal_eval storage jsonify_error now raw_data) = []
         \<and> map_of (body (query_sql loads literal_eval storage jsonify_error now raw_data))
              ''success'' = Some (PBool False)
         \<and> map_of (body (query_sql loads literal_eval storage jsonify_error now raw_data))
              ''data'' = Some PNone
         \<and> query_sql loads literal_eval storage' jsonify_error now raw_data
             = query_sql loads literal_eval storage jsonify_error now raw_data
         \<and> status (query_sql loads literal_eval storage jsonify_error now raw_data)
             = (case fix_json_format loads literal_eval raw_data of
                  Inl e \<Rightarrow> 400
                | Inr data \<Rightarrow> if truthy data \<and> \<not> is_dict data then 500 else 400)"
proof (cases "fix_json_format loads literal_eval raw_data")
  case (Inl e)
  then show ?thesis by (simp add: query_sql_def client_error_def)
next
  case (Inr data)
  show ?thesis
  proof (cases "truthy data")
    case False
    with Inr show ?thesis by (simp add: query_sql_def client_error_def)
  next
    case True
    show ?thesis
    proof (cases "py_get data ''sql''")
      case (Inl e)
      then have "\<not> is_dict data" by (cases data) (simp_all add: is_dict_def)
      with Inr True Inl show ?thesis by (simp add: query_sql_def server_error_def)
    next
      case q: (Inr q)
      then have "is_dict data" by (cases data) (simp_all add: is_dict_def)
      moreover from assms Inr True q have "\<not> truthy q" by (simp add: usable_sql_def)
      ultimately show ?thesis using Inr True q by (simp add: query_sql_def client_error_def)
    qed
  qed
qed

theorem fail_fast_without_storage_witness:
  \<open>fix_json_format json_loads (\<lambda>s. None) ''{"query": "SELECT 1"}''
     = Inr (PDict [(PStr ''query'', PStr ''SELECT 1'')])
   \<and> \<not> usable_sql (fix_json_format json_loads (\<lambda>s. None) ''{"query": "SELECT 1"}'')
   \<and> queries (query_sql json_loads (\<lambda>s. None) (\<lambda>q. QOk [''x''] []) (\<lambda>env. None) ''t''
                 ''{"query": "SELECT 1"}'') = []
   \<and> status (query_sql json_loads (\<lambda>s. None) (\<lambda>q. QOk [''x''] []) (\<lambda>env. None) ''t''
                 ''{"query": "SELECT 1"}'') = 400
   \<and> \<not> usable_sql (fix_json_format json_loads (\<lambda>s. None) ''not json'')
   \<and> queries (query_sql json_loads (\<lambda>s. None) (\<lambda>q. QOk [''x''] []) (\<lambda>env. None) ''t''
                 ''not json'') = []
   \<and> status (query_sql json_loads (\<lambda>s. None) (\<lambda>q. QOk [''x''] []) (\<lambda>env. None) ''t''
                 ''not json'') = 400\<close>
proof -
  have d: \<open>fix_json_format json_loads (\<lambda>s. None) ''{"query": "SELECT 1"}''
             = Inr (PDict [(PStr ''query'', PStr ''SELECT 1'')])\<close>
    by code_simp
  have h: \<open>\<not> usable_sql (fix_json_format json_loads (\<lambda>s. None) ''{"query": "SELECT 1"}'')\<close>
    by (simp add: d usable_sql_def)
  have d': "fix_json_format json_loads (\<lambda>s. None) ''not json'' = Inl err_unparseable"
    by code_simp
  have h': "\<not> usable_sql (fix_json_format json_loads (\<lambda>s. None) ''not json'')"
    by (simp add: d' usable_sql_def)
  show ?thesis
    using d h d' h'
      fail_fast_without_storage [OF h, of "\<lambda>q. QOk [''x''] []" "\<lambda>env. None" "''t''"]
      fail_fast_without_storage [OF h', of "\<lambda>q. QOk [''x''] []" "\<lambda>env. None" "''t''"]
    by (simp add: is_dict_def)
qed

text \<open>
  C10, as amended.  When the body decodes to a value that is not a mapping, the answer
  depends on the truth value of that value.  A truthy one (a non-empty list, string or
  tuple, a non-zero number, \<open>True\<close>) passes the emptiness test, \<open>data.get\<close> raises
  AttributeError, and the response is the server-error envelope with status 500.  A
  falsy one (an empty list or string, zero, \<open>False\<close>, \<open>None\<close>) is answered with
  status 400 and the empty-body message.  In both cases no query is executed.
\<close>

theorem non_mapping_body_response:
  assumes "fix_json_format loads literal_eval raw_data = Inr data" and "\<not> is_dict data"
  shows "query_sql loads literal_eval storage jsonify_error now raw_data
           = (if truthy data
              then server_error
                     ([CHR 0x27] @ type_name data @ [CHR 0x27] @ '' object has no attribute ''
                        @ [CHR 0x27] @ ''get'' @ [CHR 0x27]) now []
              else client_error msg_empty_body)
         \<and> status (query_sql loads literal_eval storage jsonify_error now raw_data)
             = (if truthy data then 500 else 400)
         \<and> queries (query_sql loads literal_eval storage jsonify_error now raw_data) = []"
  using assms
  by (cases data) (simp_all add: query_sql_def is_dict_def server_error_def client_error_def)

theorem non_mapping_body_response_witness:
  \<open>fix_json_format json_loads (\<lambda>s. None) ''[1,2]'' = Inr (PList [PInt 1, PInt 2])
   \<and> \<not> is_dict (PList [PInt 1, PInt 2])
   \<and> status (query_sql json_loads (\<lambda>s. None) (\<lambda>q. QOk [''x''] []) (\<lambda>env. None) ''t'' ''[1,2]'')
       = 500
   \<and> queries (query_sql json_loads (\<lambda>s. None) (\<lambda>q. QOk [''x''] []) (\<lambda>env. None) ''t'' ''[1,2]'')
       = []\<close>
proof -
  have d: \<open>fix_json_format json_loads (\<lambda>s. None) ''[1,2]'' = Inr (PList [PInt 1, PInt 2])\<close>
    by code_simp
  have n: "\<not> is_dict (PList [PInt 1, PInt 2])"
    by (simp add: is_dict_def)
  show ?thesis
    using d n non_mapping_body_response [OF d n, of "\<lambda>q. QOk [''x''] []" "\<lambda>env. None" "''t''"]
    by (simp add: server_error_def)
qed

text \<open>
  The claim C10 as stated fails on the body \<open>[]\<close>: it decodes, by the direct parse,
  to the empty list, which is not a mapping, and the handler answers with the
  client-error status 400.
\<close>

theorem non_mapping_body_counterexample:
  \<open>fix_json_format json_loads (\<lambda>s. None) ''[]'' = Inr (PList [])
   \<and> \<not> is_dict (PList [])
   \<and> query_sql json_loads (\<lambda>s. None) (\<lambda>q. QOk [''x''] []) (\<lambda>env. None) ''t'' ''[]''
       = client_error msg_empty_body
   \<and> status (query_sql json_loads (\<lambda>s. None) (\<lambda>q. QOk [''x''] []) (\<lambda>env. None) ''t'' ''[]'')
       = 400\<close>
proof -
  have d: \<open>fix_json_format json_loads (\<lambda>s. None) ''[]'' = Inr (PList [])\<close>
    by code_simp
  then show ?thesis
    by (simp add: query_sql_def is_dict_def client_error_def)
qed

text \<open>
  C5, as amended.  The decoder does not check what it returns.  What holds is a
  property of the handler: whenever a query is handed to \<open>execute_sql_query\<close>, the
  decoded value is a mapping, the query is its \<open>sql\<close> entry, and that entry is truthy
  (a string there is non-empty; the entry need not be a string).
\<close>

theorem executed_query_is_sql_field:
  assumes "queries (query_sql loads literal_eval storage jsonify_error now raw_data) = q # qs"
  shows "\<exists>kvs. fix_json_format loads literal_eval raw_data = Inr (PDict kvs)
           \<and> map_of kvs (PStr ''sql'') = Some q \<and> truthy q \<and> qs = []"
proof -
  from assms obtain data where d: "fix_json_format loads literal_eval raw_data = Inr data"
    by (cases "fix_json_format loads literal_eval raw_data")
       (simp_all add: query_sql_def client_error_def)
  from assms d have t: "truthy data"
    by (auto simp: query_sql_def client_error_def split: if_splits)
  from assms d t obtain kvs where k: "data = PDict kvs"
    by (cases data) (auto simp: query_sql_def server_error_def client_error_def split: if_splits)
  let ?v = "case map_of kvs (PStr ''sql'') of None \<Rightarrow> PNone | Some v \<Rightarrow> v"
  from assms d t k have tv: "truthy ?v"
    by (auto simp: query_sql_def client_error_def split: if_splits)
  from assms d t k tv have "q = ?v \<and> qs = []"
    by (auto simp: query_sql_def Let_def success_response_def failure_response_def
          server_error_def jsonify_def split: sum.splits option.splits if_splits)
  with tv d k show ?thesis
    by (cases "map_of kvs (PStr ''sql'')") auto
qed

theorem executed_query_is_sql_field_witness:
  \<open>queries (query_sql json_loads (\<lambda>s. None) (\<lambda>q. QOk [''x''] []) (\<lambda>env. None) ''t''
              ''{"sql": "SELECT 1"}'') = [PStr ''SELECT 1'']
   \<and> (\<exists>kvs. fix_json_format json_loads (\<lambda>s. None) ''{"sql": "SELECT 1"}'' = Inr (PDict kvs)
           \<and> map_of kvs (PStr ''sql'') = Some (PStr ''SELECT 1'') \<and> truthy (PStr ''SELECT 1''))\<close>
proof -
  have h: \<open>queries (query_sql json_loads (\<lambda>s. None) (\<lambda>q. QOk [''x''] []) (\<lambda>env. None) ''t''
              ''{"sql": "SELECT 1"}'') = [PStr ''SELECT 1'']\<close>
    by code_simp
  show ?thesis
    using h executed_query_is_sql_field [OF h] by simp
qed

text \<open>
  The claim C5 as stated fails on the body \<open>[1,2]\<close> (the decoder succeeds with a
  list, which is not a mapping) and on a body whose \<open>sql\<close> string is empty (the
  decoder succeeds with a mapping whose \<open>sql\<close> entry is the empty string).
\<close>

theorem decoded_request_counterexample:
  \<open>fix_json_format json_loads (\<lambda>s. None) ''[1,2]'' = Inr (PList [PInt 1, PInt 2])
   \<and> fix_json_format json_loads (\<lambda>s. None) ''{"sql": ""}'' = Inr (PDict [(PStr ''sql'', PStr [])])\<close>
  by code_simp

text \<open>
  C6, as amended.  Method 5 does not look at the kind of value it obtains: when the
  four earlier methods end without a value, \<open>fix_json_format\<close> returns whatever
  \<open>ast.literal_eval\<close> yields, a mapping or not, and raises only when the evaluation
  raises.
\<close>

theorem method5_returns_any_literal:
  assumes "method1 loads raw_data = None"
    and "method2 loads raw_data = None"
    and "method3 loads raw_data = None"
    and "method4 raw_data = None"
  shows "fix_json_format loads literal_eval raw_data
           = (case literal_eval raw_data of Some v \<Rightarrow> Inr v | None \<Rightarrow> Inl err_unparseable)"
  using assms by (simp add: fix_json_format_def method5_def split: option.splits)

theorem method5_returns_any_literal_witness:
  "method1 json_loads ''(1, 2)'' = None
   \<and> method2 json_loads ''(1, 2)'' = None
   \<and> method3 json_loads ''(1, 2)'' = None
   \<and> method4 ''(1, 2)'' = None
   \<and> fix_json_format json_loads (map_of [(''(1, 2)'', PTuple [PInt 1, PInt 2])]) ''(1, 2)''
       = Inr (PTuple [PInt 1, PInt 2])
   \<and> fix_json_format json_loads (\<lambda>s. None) ''(1, 2)'' = Inl err_unparseable"
proof -
  have h1: "method1 json_loads ''(1, 2)'' = None" by code_simp
  have h2: "method2 json_loads ''(1, 2)'' = None" by code_simp
  have h3: "method3 json_loads ''(1, 2)'' = None" by code_simp
  have h4: "method4 ''(1, 2)'' = None" by code_simp
  show ?thesis
    using h1 h2 h3 h4
      method5_returns_any_literal [OF h1 h2 h3 h4, of "map_of [(''(1, 2)'', PTuple [PInt 1, PInt 2])]"]
      method5_returns_any_literal [OF h1 h2 h3 h4, of "\<lambda>s. None"]
    by simp
qed

text \<open>
  The claim C6 as stated fails on the text \<open>(1, 2)\<close>: it is not JSON, no pattern
  matches it, \<open>ast.literal_eval\<close> evaluates it to the tuple \<open>(1, 2)\<close>, and the decoder
  returns that tuple.
\<close>

theorem method5_non_mapping_counterexample:
  "method1 json_loads ''(1, 2)'' = None
   \<and> method2 json_loads ''(1, 2)'' = None
   \<and> method3 json_loads ''(1, 2)'' = None
   \<and> method4 ''(1, 2)'' = None
   \<and> \<not> is_dict (PTuple [PInt 1, PInt 2])
   \<and> fix_json_format json_loads (map_of [(''(1, 2)'', PTuple [PInt 1, PInt 2])]) ''(1, 2)''
       = Inr (PTuple [PInt 1, PInt 2])"
proof -
  have h1: "method1 json_loads ''(1, 2)'' = None" by code_simp
  have h2: "method2 json_loads ''(1, 2)'' = None" by code_simp
  have h3: "method3 json_loads ''(1, 2)'' = None" by code_simp
  have h4: "method4 ''(1, 2)'' = None" by code_simp
  show ?thesis
    using h1 h2 h3 h4 by (simp add: fix_json_format_def method5_def is_dict_def)
qed

section \<open>Properties of the patterns and of the repair of method 2\<close>

lemma space_len_DQ [simp]: "space_len (DQ # y) = 0"
  by (simp add: space_len_def ascii_space_def wide_spaces_def)

lemma skip_space_DQ [simp]: "skip_space (DQ # y) = DQ # y"
  by (subst skip_space.simps) simp

lemma wide_space_len: "w \<in> set wide_spaces \<Longrightarrow> space_len (w @ z) = length w"
  by (auto simp: wide_spaces_def space_len_def ascii_space_def)

lemma space_len_take:
  assumes "space_len t \<noteq> 0"
  shows "space_len t \<le> length t \<and> space_len (take (space_len t) t @ z) = space_len t"
proof -
  from assms obtain c cs where t: "t = c # cs" by (cases t) auto
  show ?thesis
  proof (cases "ascii_space c")
    case True
    then show ?thesis by (simp add: t space_len_def)
  next
    case False
    with assms t obtain w ws where f: "filter (\<lambda>w. prefix w t) wide_spaces = w # ws"
      by (auto simp: space_len_def split: list.splits)
    then have "w \<in> set (filter (\<lambda>w. prefix w t) wide_spaces)" by simp
    then have w: "w \<in> set wide_spaces" "prefix w t" by auto
    from False t f have n: "space_len t = length w" by (simp add: space_len_def)
    from w(2) have "take (length w) t = w" "length w \<le> length t"
      by (auto simp: prefix_def)
    with n wide_space_len [OF w(1)] show ?thesis by simp
  qed
qed

lemma skip_space_suffix: "suffix (skip_space t) t"
proof (induction t rule: skip_space.induct)
  case (1 s)
  show ?case
  proof (cases "space_len s = 0")
    case True
    then show ?thesis by (subst skip_space.simps) simp
  next
    case False
    with 1 have "suffix (skip_space (drop (space_len s) s)) (drop (space_len s) s)" by simp
    then have "suffix (skip_space (drop (space_len s) s)) s"
      using suffix_drop suffix_order.trans by blast
    with False show ?thesis by (subst skip_space.simps) simp
  qed
qed

lemma skip_space_stable:
  "skip_space t = DQ # v \<Longrightarrow> t = sp @ DQ # v \<Longrightarrow> skip_space (sp @ DQ # y) = DQ # y"
proof (induction t arbitrary: sp rule: skip_space.induct)
  case (1 s)
  show ?case
  proof (cases "space_len s = 0")
    case True
    with 1(2) have "s = DQ # v" by (subst (asm) skip_space.simps) simp
    with 1(3) have "sp = []" by simp
    then show ?thesis by simp
  next
    case False
    let ?n = "space_len s"
    from False 1(2) have sk: "skip_space (drop ?n s) = DQ # v"
      by (subst (asm) skip_space.simps) simp
    from space_len_take [OF False] have n: "?n \<le> length s"
      and st: "\<And>z. space_len (take ?n s @ z) = ?n" by auto
    have "suffix (DQ # v) (drop ?n s)" using skip_space_suffix [of "drop ?n s"] sk by simp
    then obtain sp' where d: "drop ?n s = sp' @ DQ # v" by (auto simp: suffix_def)
    have "s = take ?n s @ drop ?n s" by simp
    with d 1(3) have sp: "sp = take ?n s @ sp'" by (metis append.assoc same_append_eq append_eq_append_conv)
    from 1(1) [OF False sk d] have ih: "skip_space (sp' @ DQ # y) = DQ # y" .
    have "skip_space (sp @ DQ # y) = skip_space (drop ?n (take ?n s @ sp' @ DQ # y))"
      using st [of "sp' @ DQ # y"] False by (subst skip_space.simps) (simp add: sp)
    also have "drop ?n (take ?n s @ sp' @ DQ # y) = sp' @ DQ # y" using n by simp
    finally show ?thesis using ih by simp
  qed
qed

lemma takeWhile_no_DQ: "DQ \<notin> set g \<Longrightarrow> takeWhile (\<lambda>c. c \<noteq> DQ) (g @ DQ # z) = g"
  by (induction g) auto

lemma dropWhile_no_DQ: "DQ \<notin> set g \<Longrightarrow> dropWhile (\<lambda>c. c \<noteq> DQ) (g @ DQ # z) = DQ # z"
  by (induction g) auto

lemma split_at_DQ:
  assumes "DQ \<in> set v"
  shows "v = takeWhile (\<lambda>c. c \<noteq> DQ) v @ DQ # tl (dropWhile (\<lambda>c. c \<noteq> DQ) v)
         \<and> DQ \<notin> set (takeWhile (\<lambda>c. c \<noteq> DQ) v)"
proof -
  from assms have ne: "dropWhile (\<lambda>c. c \<noteq> DQ) v \<noteq> []" by (simp add: dropWhile_eq_Nil_conv)
  then have "hd (dropWhile (\<lambda>c. c \<noteq> DQ) v) = DQ" using hd_dropWhile [of "\<lambda>c. c \<noteq> DQ" v] by simp
  with ne have "dropWhile (\<lambda>c. c \<noteq> DQ) v = DQ # tl (dropWhile (\<lambda>c. c \<noteq> DQ) v)"
    by (metis list.collapse)
  then have "v = takeWhile (\<lambda>c. c \<noteq> DQ) v @ DQ # tl (dropWhile (\<lambda>c. c \<noteq> DQ) v)"
    by (metis takeWhile_dropWhile_id)
  moreover have "DQ \<notin> set (takeWhile (\<lambda>c. c \<noteq> DQ) v)"
    by (auto dest: set_takeWhileD)
  ultimately show ?thesis by simp
qed

text \<open>The shape of a match of the \<open>sql\<close> pattern, and its independence of what follows.\<close>

lemma match_sql_at_shape:
  assumes \<open>match_sql_at s = Some (g0, g1, post)\<close>
  shows \<open>\<exists>sp. g0 = ''"sql":'' @ sp @ [DQ] @ g1 @ [DQ] \<and> s = g0 @ post \<and> DQ \<notin> set g1
           \<and> (\<forall>z. match_sql_at (g0 @ z) = Some (g0, g1, z))\<close>
proof -
  define t where "t = drop 6 s"
  from assms have p: \<open>prefix ''"sql":'' s\<close>
    by (auto simp: match_sql_at_def split: if_splits)
  then have s: \<open>s = ''"sql":'' @ t\<close> by (auto simp: prefix_def t_def)
  from assms p obtain v where u: "skip_space t = DQ # v" and dq: "DQ \<in> set v"
    by (auto simp: match_sql_at_def Let_def t_def split: list.splits if_splits)
  have "suffix (DQ # v) t" using skip_space_suffix [of t] u by simp
  then obtain sp where t: "t = sp @ DQ # v" by (auto simp: suffix_def)
  then have sp: "take (length t - length (DQ # v)) t = sp" by simp
  from assms p u dq sp have g1: "g1 = takeWhile (\<lambda>c. c \<noteq> DQ) v"
    and post: "post = tl (dropWhile (\<lambda>c. c \<noteq> DQ) v)"
    and g0: \<open>g0 = ''"sql":'' @ sp @ [DQ] @ g1 @ [DQ]\<close>
    unfolding match_sql_at_def Let_def t_def [symmetric] by auto
  from split_at_DQ [OF dq] g1 post have v: "v = g1 @ DQ # post" and nodq: "DQ \<notin> set g1"
    by auto
  have stable: "\<And>y. skip_space (sp @ DQ # y) = DQ # y"
    using skip_space_stable [OF u t] .
  have whole: "s = g0 @ post"
    by (subst s, subst t, subst v) (simp add: g0)
  have "match_sql_at (g0 @ z) = Some (g0, g1, z)" for z
  proof -
    have pz: \<open>prefix ''"sql":'' (g0 @ z)\<close> and dz: "drop 6 (g0 @ z) = sp @ DQ # (g1 @ DQ # z)"
      by (simp_all add: g0)
    have len: "length (sp @ DQ # g1 @ DQ # z) - length (DQ # g1 @ DQ # z) = length sp" by simp
    show ?thesis
      unfolding match_sql_at_def Let_def dz
      using pz stable [of "g1 @ DQ # z"] nodq
      by (simp add: takeWhile_no_DQ dropWhile_no_DQ g0)
  qed
  with g0 whole nodq show ?thesis by blast
qed

lemma re_search_leftmost:
  "re_search m s = Some (pre, r) \<Longrightarrow>
     \<exists>suf. s = pre @ suf \<and> m suf = Some r
        \<and> (\<forall>p1 p2. pre = p1 @ p2 \<and> p2 \<noteq> [] \<longrightarrow> m (p2 @ suf) = None)"
proof (induction s arbitrary: pre)
  case Nil
  then show ?case by auto
next
  case (Cons c cs)
  show ?case
  proof (cases "m (c # cs)")
    case (Some r')
    with Cons.prems show ?thesis by auto
  next
    case None
    with Cons.prems obtain pre' where pre: "pre = c # pre'" and rs: "re_search m cs = Some (pre', r)"
      by (auto split: option.splits)
    from Cons.IH [OF rs] obtain suf where suf: "cs = pre' @ suf" "m suf = Some r"
      and left: "\<forall>p1 p2. pre' = p1 @ p2 \<and> p2 \<noteq> [] \<longrightarrow> m (p2 @ suf) = None"
      by blast
    have "m (p2 @ suf) = None" if "pre = p1 @ p2" "p2 \<noteq> []" for p1 p2
    proof (cases p1)
      case Nil
      with that pre have "p2 = c # pre'" by simp
      with suf None show ?thesis by simp
    next
      case (Cons a p1')
      with that pre have "pre' = p1' @ p2" by simp
      with left that show ?thesis by blast
    qed
    with pre suf show ?thesis by auto
  qed
qed

lemma str_replace_first:
  assumes "old \<noteq> []"
    and "\<And>p1 p2. pre = p1 @ p2 \<Longrightarrow> p2 \<noteq> [] \<Longrightarrow> \<not> prefix old (p2 @ old @ post)"
  shows "str_replace old new (pre @ old @ post) = pre @ new @ str_replace old new post"
  using assms(2)
proof (induction pre)
  case Nil
  from assms(1) obtain c cs where "old @ post = c # cs" by (cases old) auto
  moreover have "prefix old (old @ post)" by simp
  ultimately show ?case using assms(1)
    by (metis append_Nil append_eq_conv_conj str_replace.simps(2))
next
  case (Cons a pre)
  have "\<not> prefix old ((a # pre) @ old @ post)"
    using Cons.prems [of "[]" "a # pre"] by simp
  moreover have "str_replace old new (pre @ old @ post) = pre @ new @ str_replace old new post"
  proof (rule Cons.IH)
    fix p1 p2 assume "pre = p1 @ p2" "p2 \<noteq> []"
    then show "\<not> prefix old (p2 @ old @ post)" using Cons.prems [of "a # p1" p2] by simp
  qed
  ultimately show ?case using assms(1) by simp
qed

lemma str_replace_char:
  "str_replace [a] new s = concat (map (\<lambda>c. if c = a then new else [c]) s)"
  by (induction s) auto

lemma escape_newlines_eq:
  "str_replace [CR] [BSL, CHR ''r''] (str_replace [LF] [BSL, CHR ''n''] s) = escape_newlines s"
  by (induction s) (auto simp: str_replace_char escape_newlines_def)

lemma method2_fixed_data_splice:
  assumes "re_search match_sql_at raw_data = Some (pre, g0, g1, post)"
  shows \<open>raw_data = pre @ g0 @ post
         \<and> method2_fixed_data raw_data
             = Some (pre @ (''"sql": "'' @ escape_newlines g1 @ ''"'')
                       @ str_replace g0 (''"sql": "'' @ escape_newlines g1 @ ''"'') post)\<close>
proof -
  from re_search_leftmost [OF assms] obtain suf where raw: "raw_data = pre @ suf"
    and m: "match_sql_at suf = Some (g0, g1, post)"
    and left: "\<And>p1 p2. pre = p1 @ p2 \<Longrightarrow> p2 \<noteq> [] \<Longrightarrow> match_sql_at (p2 @ suf) = None"
    by blast
  from match_sql_at_shape [OF m] obtain sp where g0: \<open>g0 = ''"sql":'' @ sp @ [DQ] @ g1 @ [DQ]\<close>
    and suf: "suf = g0 @ post"
    and again: "\<And>z. match_sql_at (g0 @ z) = Some (g0, g1, z)"
    by blast
  from g0 have ne: "g0 \<noteq> []" by simp
  have nop: "\<not> prefix g0 (p2 @ g0 @ post)" if "pre = p1 @ p2" "p2 \<noteq> []" for p1 p2
  proof
    assume "prefix g0 (p2 @ g0 @ post)"
    then obtain z where "p2 @ g0 @ post = g0 @ z" by (auto simp: prefix_def)
    with again [of z] have "match_sql_at (p2 @ suf) \<noteq> None" by (simp add: suf)
    with left [OF that] show False by simp
  qed
  have "str_replace g0 new (pre @ g0 @ post) = pre @ new @ str_replace g0 new post" for new
    by (rule str_replace_first [OF ne]) (use nop in blast)
  with assms raw suf show ?thesis
    by (simp add: method2_fixed_data_def escape_newlines_eq)
qed

section \<open>The round trip through the JSON decoder\<close>






















lemma match_sql_at_head: "c \<noteq> DQ \<Longrightarrow> match_sql_at (c # s) = None"
  by (simp add: match_sql_at_def)














text \<open>
  C7, as amended.  When the pattern of method 2 is found, the repaired text is the
  original with: the text before the first match unchanged; the first match (from
  \<open>"sql":\<close> to the closing quote) replaced by \<open>"sql": "\<close>, the captured text with
  its newlines and carriage returns escaped, and a quote, so that the whitespace
  between the colon and the opening quote becomes one blank; and, in the text after
  that match, every further occurrence of the matched text replaced in the same way,
  all else unchanged.
\<close>

theorem method2_repair_frame:
  assumes "re_search match_sql_at raw_data = Some (pre, group0, group1, post)"
  shows \<open>raw_data = pre @ group0 @ post
         \<and> (\<exists>sp. group0 = ''"sql":'' @ sp @ [DQ] @ group1 @ [DQ])
         \<and> method2_fixed_data raw_data
             = Some (pre @ (''"sql": "'' @ escape_newlines group1 @ ''"'')
                       @ str_replace group0 (''"sql": "'' @ escape_newlines group1 @ ''"'') post)\<close>
proof -
  from re_search_leftmost [OF assms] obtain suf
    where "match_sql_at suf = Some (group0, group1, post)" by blast
  from match_sql_at_shape [OF this]
  have \<open>\<exists>sp. group0 = ''"sql":'' @ sp @ [DQ] @ group1 @ [DQ]\<close> by blast
  with method2_fixed_data_splice [OF assms] show ?thesis by blast
qed

theorem method2_repair_frame_witness:
  \<open>re_search match_sql_at ''{"sql":"a\<newline>b", "n": 1}''
     = Some (''{'', ''"sql":"a\<newline>b"'', ''a\<newline>b'', '', "n": 1}'')
   \<and> method2_fixed_data ''{"sql":"a\<newline>b", "n": 1}''
       = Some (''{"sql": "a'' @ [BSL, CHR ''n''] @ ''b", "n": 1}'')\<close>
proof -
  have h: \<open>re_search match_sql_at ''{"sql":"a\<newline>b", "n": 1}''
             = Some (''{'', ''"sql":"a\<newline>b"'', ''a\<newline>b'', '', "n": 1}'')\<close>
    by code_simp
  have e: \<open>''{'' @ (''"sql": "'' @ escape_newlines ''a\<newline>b'' @ ''"'')
              @ str_replace ''"sql":"a\<newline>b"''
                  (''"sql": "'' @ escape_newlines ''a\<newline>b'' @ ''"'') '', "n": 1}''
            = ''{"sql": "a'' @ [BSL, CHR ''n''] @ ''b", "n": 1}''\<close>
    by code_simp
  have f: \<open>method2_fixed_data ''{"sql":"a\<newline>b", "n": 1}''
             = Some (''{'' @ (''"sql": "'' @ escape_newlines ''a\<newline>b'' @ ''"'')
                       @ str_replace ''"sql":"a\<newline>b"''
                           (''"sql": "'' @ escape_newlines ''a\<newline>b'' @ ''"'') '', "n": 1}'')\<close>
    using method2_repair_frame [OF h] by (rule conjunct2 [OF conjunct2])
  from h f [unfolded e] show ?thesis ..
qed

text \<open>
  The claim C7 as stated fails in two ways.  On \<open>{"sql":"a\<newline>b"}\<close> (no blank after
  the colon) the repaired text has a blank that the original does not have.  On a text
  that holds the same field twice, the second occurrence, which is outside the captured
  span, is rewritten too.
\<close>

theorem method2_repair_counterexample:
  \<open>method2_fixed_data ''{"sql":"a\<newline>b"}'' = Some (''{"sql": "a'' @ [BSL, CHR ''n''] @ ''b"}'')
   \<and> spliced_in_place ''{"sql":"a\<newline>b"}'' = Some (''{"sql":"a'' @ [BSL, CHR ''n''] @ ''b"}'')
   \<and> method2_fixed_data ''{"sql":"a\<newline>b"}'' \<noteq> spliced_in_place ''{"sql":"a\<newline>b"}''
   \<and> method2_fixed_data ''{"sql": "a\<newline>b"} {"sql": "a\<newline>b"}''
       = Some (''{"sql": "a'' @ [BSL, CHR ''n''] @ ''b"} {"sql": "a'' @ [BSL, CHR ''n''] @ ''b"}'')
   \<and> spliced_in_place ''{"sql": "a\<newline>b"} {"sql": "a\<newline>b"}''
       = Some (''{"sql": "a'' @ [BSL, CHR ''n''] @ ''b"} {"sql": "a\<newline>b"}'')\<close>
  by code_simp




text \<open>
  Beyond that, the pattern stops at the first quote after the opening one, escaped or
  not: on a value with an escaped quote followed by a newline the first three methods
  fail and method 4 returns the text up to the backslash.
\<close>

lemma escaped_quote_truncation:
  \<open>fix_json_format json_loads (\<lambda>s. None)
     (''{"sql": "SELECT '' @ [BSL, DQ] @ ''x'' @ [BSL, DQ] @ ''\<newline>FROM t"}'')
     = Inr (PDict [(PStr ''sql'', PStr (''SELECT '' @ [BSL]))])\<close>
  by code_simp

end
